theory Spec2Isabelle
  imports Main
begin

section \<open>Strings\<close>

text \<open>
  The plugin is TypeScript; its strings are sequences of code units. They are modelled as
  \<open>string\<close>, so the code units covered are those below 256. The operations below are the
  built-in string methods the plugin calls, each with the argument shapes the plugin uses.
\<close>

definition NL :: char where
  "NL = CHR 0x0A"

definition backslash :: char where
  "backslash = CHR 0x5C"

text \<open>\<open>s.startsWith(p)\<close>.\<close>

definition js_startsWith :: "string \<Rightarrow> string \<Rightarrow> bool" where
  "js_startsWith s p = (take (length p) s = p)"

text \<open>\<open>s.includes(c)\<close> for a one-character needle.\<close>

definition js_includes :: "string \<Rightarrow> char \<Rightarrow> bool" where
  "js_includes s c = (c \<in> set s)"

text \<open>
  \<open>s.split(sep)\<close> for a one-character separator, as a scan that carries the segment read
  so far: the result always has at least one element, and the empty string splits into one
  empty segment.
\<close>

fun splitFrom :: "char \<Rightarrow> string \<Rightarrow> string \<Rightarrow> string list" where
  "splitFrom sep cur [] = [cur]"
| "splitFrom sep cur (c # cs) =
     (if c = sep then cur # splitFrom sep [] cs else splitFrom sep (cur @ [c]) cs)"

definition js_split :: "char \<Rightarrow> string \<Rightarrow> string list" where
  "js_split sep s = splitFrom sep [] s"

text \<open>\<open>xs.join(sep)\<close>.\<close>

fun js_join :: "string \<Rightarrow> string list \<Rightarrow> string" where
  "js_join sep [] = []"
| "js_join sep [x] = x"
| "js_join sep (x # y # ys) = x @ sep @ js_join sep (y # ys)"

text \<open>
  The characters that \<open>\s\<close> matches and \<open>trim\<close> strips (white space and line
  terminators), among the code units below 256: tab, line feed, vertical tab, form feed,
  carriage return, space and no-break space.
\<close>

definition isWhiteSpace :: "char \<Rightarrow> bool" where
  "isWhiteSpace c =
     (c = CHR 0x09 \<or> c = CHR 0x0A \<or> c = CHR 0x0B \<or> c = CHR 0x0C \<or> c = CHR 0x0D
      \<or> c = CHR 0x20 \<or> c = CHR 0xA0)"

definition js_trim :: "string \<Rightarrow> string" where
  "js_trim s = rev (dropWhile isWhiteSpace (rev (dropWhile isWhiteSpace s)))"

section \<open>Path validator\<close>

text \<open>The character class \<open>[a-zA-Z]\<close>: the code units 65 to 90 and 97 to 122.\<close>

definition isAsciiLetter :: "char \<Rightarrow> bool" where
  "isAsciiLetter c =
     (let n = (of_char c :: nat) in (65 \<le> n \<and> n \<le> 90) \<or> (97 \<le> n \<and> n \<le> 122))"

text \<open>\<open>/^[a-zA-Z]:/.test(filePath)\<close>.\<close>

definition testDrivePrefix :: "string \<Rightarrow> bool" where
  "testDrivePrefix filePath =
     (case filePath of
        c # d # _ \<Rightarrow> isAsciiLetter c \<and> d = CHR '':''
      | _ \<Rightarrow> False)"

text \<open>\<open>filePath.replace(/\\/g, "/")\<close>: every backslash becomes a slash.\<close>

definition replaceBackslashes :: "string \<Rightarrow> string" where
  "replaceBackslashes filePath = map (\<lambda>c. if c = backslash then CHR ''/'' else c) filePath"

definition isValidVaultPath :: "string \<Rightarrow> bool" where
  "isValidVaultPath filePath =
     (if testDrivePrefix filePath \<or> js_startsWith filePath ''/'' then False
      else
        (let segments = js_split (CHR ''/'') (replaceBackslashes filePath)
         in if list_ex (\<lambda>s. s = ''..'') segments then False else True))"

section \<open>Frontmatter field remover\<close>

text \<open>
  What the plugin's code can throw: the \<open>RegExp\<close> constructor throws a syntax error on a
  malformed pattern, and the host's file operations reject with an error of their own.
  The message of a syntax error depends on the JavaScript engine and is not modelled; the
  plugin never inspects it.
\<close>

datatype error = SyntaxError | HostError string

text \<open>
  The pattern that selects the lines of the field is built at run time from the setting:
  \<open>new RegExp(`^${propName}\\s*:`)\<close>. The constructor belongs to the JavaScript runtime, not
  to the plugin, and is a parameter of the model: given the pattern's source it either throws
  (\<open>None\<close>) or gives the compiled pattern, represented by whether a line matches it.
\<close>

type_synonym regexp = "string \<Rightarrow> bool"

type_synonym regexp_constructor = "string \<Rightarrow> regexp option"

definition fieldPatternSource :: "string \<Rightarrow> string" where
  "fieldPatternSource propName = ''^'' @ propName @ [backslash] @ ''s*:''"

text \<open>
  The lazy \<open>[\s\S]*?\<close> followed by \<open>\n---\<close>: the shortest prefix after which a line feed and
  three dashes follow. The result is that prefix and what follows the three dashes.
\<close>

fun findClosingFence :: "string \<Rightarrow> (string \<times> string) option" where
  "findClosingFence [] = None"
| "findClosingFence (c # cs) =
     (if js_startsWith (c # cs) ''\<newline>---'' then Some ([], drop (length ''\<newline>---'') (c # cs))
      else (case findClosingFence cs of
              None \<Rightarrow> None
            | Some (block, rest) \<Rightarrow> Some (c # block, rest)))"

text \<open>
  \<open>content.match(/^---\n([\s\S]*?)\n---/)\<close>: the matched text, capture group 1 and the rest of
  the content after the match. The pattern is anchored, so a match starts at index 0.
\<close>

definition matchFrontmatter :: "string \<Rightarrow> (string \<times> string \<times> string) option" where
  "matchFrontmatter content =
     (if js_startsWith content ''---\<newline>'' then
        (case findClosingFence (drop (length ''---\<newline>'') content) of
           None \<Rightarrow> None
         | Some (fmBlock, rest) \<Rightarrow> Some (''---\<newline>'' @ fmBlock @ ''\<newline>---'', fmBlock, rest))
      else None)"

text \<open>The two patterns of the \<open>replace\<close> calls, as the matched text and the rest after it.\<close>

definition matchFence :: "string \<Rightarrow> (string \<times> string) option" where
  \<comment> \<open>\<open>/^---\n[\s\S]*?\n---/\<close>\<close>
  "matchFence content =
     (case matchFrontmatter content of
        None \<Rightarrow> None
      | Some (matched, fmBlock, rest) \<Rightarrow> Some (matched, rest))"

definition matchFenceNewline :: "string \<Rightarrow> (string \<times> string) option" where
  \<comment> \<open>\<open>/^---\n[\s\S]*?\n---\n?/\<close>\<close>
  "matchFenceNewline content =
     (case matchFrontmatter content of
        None \<Rightarrow> None
      | Some (matched, fmBlock, rest) \<Rightarrow>
          (case rest of
             c # rest' \<Rightarrow> if c = NL then Some (matched @ [NL], rest') else Some (matched, rest)
           | [] \<Rightarrow> Some (matched, rest)))"

text \<open>
  The replacement string of \<open>String.prototype.replace\<close> is a template: \<open>$$\<close> stands for a
  dollar sign, \<open>$&\<close> for the matched text, \<open>$`\<close> for the text before the match and \<open>$'\<close>
  for the text after it. The patterns above have no capture group, so \<open>$1\<close> to \<open>$99\<close> and
  \<open>$<\<close> stay as they are, as does a dollar sign before any other character.
\<close>

fun getSubstitution :: "string \<Rightarrow> string \<Rightarrow> string \<Rightarrow> string \<Rightarrow> string" where
  "getSubstitution matched preceding following [] = []"
| "getSubstitution matched preceding following [c] = [c]"
| "getSubstitution matched preceding following (c # d # t) =
     (if c = CHR ''$'' then
        (if d = CHR ''$'' then CHR ''$'' # getSubstitution matched preceding following t
         else if d = CHR ''&'' then matched @ getSubstitution matched preceding following t
         else if d = CHR 0x60 then preceding @ getSubstitution matched preceding following t
         else if d = CHR 0x27 then following @ getSubstitution matched preceding following t
         else c # getSubstitution matched preceding following (d # t))
      else c # getSubstitution matched preceding following (d # t))"

text \<open>
  \<open>content.replace(pattern, replacement)\<close> for an anchored pattern without the global flag:
  the first (and only possible) match is replaced, the rest is kept.
\<close>

definition js_replace :: "(string \<Rightarrow> (string \<times> string) option) \<Rightarrow> string \<Rightarrow> string \<Rightarrow> string" where
  "js_replace pattern replacement content =
     (case pattern content of
        None \<Rightarrow> content
      | Some (matched, rest) \<Rightarrow> getSubstitution matched [] rest replacement @ rest)"

text \<open>
  \<open>lines.filter((line) => !line.match(new RegExp(...)))\<close>: the pattern is constructed anew
  for every line, and a throwing constructor ends the whole call.
\<close>

fun filterLines :: "regexp_constructor \<Rightarrow> string \<Rightarrow> string list \<Rightarrow> error + string list" where
  "filterLines newRegExp propName [] = Inr []"
| "filterLines newRegExp propName (line # lines) =
     (case newRegExp (fieldPatternSource propName) of
        None \<Rightarrow> Inl SyntaxError
      | Some re \<Rightarrow>
          (case filterLines newRegExp propName lines of
             Inl e \<Rightarrow> Inl e
           | Inr kept \<Rightarrow> Inr (if \<not> re line then line # kept else kept)))"

text \<open>
  The function that \<open>removeRecommendedPathProperty\<close> hands to the host's \<open>process\<close>: from the
  content of the file to its new content.
\<close>

definition removeRecommendedPathProperty_callback ::
  "regexp_constructor \<Rightarrow> string \<Rightarrow> string \<Rightarrow> error + string" where
  "removeRecommendedPathProperty_callback newRegExp propName content =
     (case matchFrontmatter content of
        None \<Rightarrow> Inr content
      | Some (matched, fmBlock, rest) \<Rightarrow>
          (case filterLines newRegExp propName (js_split NL fmBlock) of
             Inl e \<Rightarrow> Inl e
           | Inr filtered \<Rightarrow>
               if list_all (\<lambda>l. js_trim l = []) filtered
               then Inr (js_replace matchFenceNewline [] content)
               else Inr (js_replace matchFence
                           (''---\<newline>'' @ js_join [NL] filtered @ ''\<newline>---'') content)))"

subsection \<open>The pattern of a field name without syntax characters\<close>

text \<open>
  The characters with a meaning of their own in a pattern. A field name without any of them
  is a sequence of pattern characters, each matching itself.
\<close>

definition syntaxCharacter :: "char \<Rightarrow> bool" where
  "syntaxCharacter c = (c \<in> set (''^$.*+?()[]{}|'' @ [backslash]))"

text \<open>
  \<open>/^name\s*:/\<close> on a line, for such a name: the line starts with the name, then any number
  of white space characters, then a colon. The pattern has no flags, so \<open>^\<close> is the start of
  the line handed to it and the comparison is case sensitive.
\<close>

definition testFieldPattern :: "string \<Rightarrow> regexp" where
  "testFieldPattern propName line =
     (js_startsWith line propName \<and>
      (case dropWhile isWhiteSpace (drop (length propName) line) of
         c # _ \<Rightarrow> c = CHR '':''
       | [] \<Rightarrow> False))"

text \<open>
  A stand-in for the runtime's constructor, to run the remover on concrete documents. On the
  source built from a field name without syntax characters it answers as the runtime does.
  It is not the runtime's constructor on any other source: the runtime compiles many of
  them (the source built from the field name \<open>a.b\<close>, for one), and the stand-in
  refuses them all. The statements below apply it to the sources built from the field names
  \<open>recommended_path\<close> and \<open>---x\<close> only; what holds for every field name is stated
  for an arbitrary constructor.
\<close>

definition plainRegExp :: regexp_constructor where
  "plainRegExp source =
     (let n = length source - 5; propName = take n (drop 1 source) in
      if source = fieldPatternSource propName \<and> \<not> list_ex syntaxCharacter propName
      then Some (testFieldPattern propName) else None)"

subsection \<open>The wording of the specification\<close>

text \<open>
  The specification says that a line is removed when its trimmed start matches the field
  name followed by a colon: leading white space is skipped before the comparison.
\<close>

definition spec_removesLine :: "string \<Rightarrow> string \<Rightarrow> bool" where
  "spec_removesLine fieldName line = js_startsWith (dropWhile isWhiteSpace line) (fieldName @ '':'')"

text \<open>
  The specification describes a document with frontmatter as one that has a line \<open>---\<close> at
  the very start, followed later by a closing line \<open>---\<close>.
\<close>

definition spec_hasLeadingFence :: "string \<Rightarrow> bool" where
  "spec_hasLeadingFence content =
     (case js_split NL content of
        [] \<Rightarrow> False
      | first # later \<Rightarrow> first = ''---'' \<and> ''---'' \<in> set later)"

text \<open>
  The block of such a document in the same reading: the lines after the opening line, up
  to the first line \<open>---\<close>.
\<close>

definition spec_fenceBlock :: "string \<Rightarrow> string list" where
  "spec_fenceBlock content = takeWhile (\<lambda>l. l \<noteq> ''---'') (tl (js_split NL content))"

text \<open>
  The same with a closing line that only has to begin with \<open>---\<close>.
\<close>

definition hasLeadingFenceStart :: "string \<Rightarrow> bool" where
  "hasLeadingFenceStart content =
     (case js_split NL content of
        [] \<Rightarrow> False
      | first # later \<Rightarrow> first = ''---'' \<and> list_ex (\<lambda>l. js_startsWith l ''---'') later)"


section \<open>Host application and settings\<close>

text \<open>
  A file object of the host: its path relative to the vault and its name (the last part of
  the path), both kept by the host.
\<close>

record TFile =
  path :: string
  name :: string

text \<open>What the host finds at a path: a file or a folder (named by its path).\<close>

datatype TAbstractFile = File TFile | Folder string

record FileMoverSettings =
  archiveFolder :: string
  recommendedPathProperty :: string
  confirmBeforeMove :: bool

definition DEFAULT_SETTINGS :: FileMoverSettings where
  "DEFAULT_SETTINGS =
     \<lparr>archiveFolder = ''90_Archive'', recommendedPathProperty = ''recommended_path'',
      confirmBeforeMove = True\<rparr>"

text \<open>
  The host's vault and file manager are not code of the plugin. They are a parameter of the
  model: a state \<open>'h\<close> of the host and the four operations the plugin calls on it. The
  lookup reads the state; the other three give the next state and the error they reject
  with, if any. \<open>process\<close> is handed the function that maps the old content to the new.
\<close>

record 'h host =
  getAbstractFileByPath :: "'h \<Rightarrow> string \<Rightarrow> TAbstractFile option"
  createFolder :: "'h \<Rightarrow> string \<Rightarrow> 'h \<times> error option"
  renameFile :: "'h \<Rightarrow> TFile \<Rightarrow> string \<Rightarrow> 'h \<times> error option"
  process :: "'h \<Rightarrow> TFile \<Rightarrow> (string \<Rightarrow> error + string) \<Rightarrow> 'h \<times> error option"

text \<open>
  Every call the plugin makes on the host, the notification surface, the console and the
  confirmation dialog is recorded, in order, with its arguments. A notice of a caught
  error has the text \<open>`${prefix}${e}`\<close>; it is recorded as the prefix and the error, since
  how an error is rendered is up to the engine and the host.
\<close>

datatype event =
    Notice string
  | ErrorNotice string error
  | ConsoleError string error
  | ModalOpened string string
  | Lookup string
  | FolderCreation string
  | Rename TFile string
  | ContentRewrite TFile

record 'h world =
  vault :: 'h
  trace :: "event list"

definition emit :: "event \<Rightarrow> 'h world \<Rightarrow> 'h world" where
  "emit e w = w\<lparr>trace := trace w @ [e]\<rparr>"

text \<open>The answer of the user to the confirmation dialog.\<close>

datatype answer = Confirm | Cancel

section \<open>Move orchestrator\<close>

text \<open>The \<open>catch\<close> blocks: a notice with the error, and a line on the console.\<close>

definition caught :: "string \<Rightarrow> string \<Rightarrow> error \<Rightarrow> 'h world \<Rightarrow> 'h world" where
  "caught noticePrefix consoleText e w =
     emit (ConsoleError consoleText e) (emit (ErrorNotice noticePrefix e) w)"

text \<open>
  The loop of \<open>ensureParentFolders\<close> over the parts of the path, with \<open>current\<close> the prefix
  built so far. An empty \<open>current\<close> is falsy, so the next part then stands alone. The result
  is the error that ended the loop, if any, and the world after it.
\<close>

fun ensureFolders :: "'h host \<Rightarrow> string list \<Rightarrow> string \<Rightarrow> 'h world \<Rightarrow> error option \<times> 'h world" where
  "ensureFolders H [] current w = (None, w)"
| "ensureFolders H (part # parts) current w =
     (let current' = (if current \<noteq> [] then current @ ''/'' @ part else part);
          existing = getAbstractFileByPath H (vault w) current';
          w1 = emit (Lookup current') w
      in case existing of
           Some found \<Rightarrow> ensureFolders H parts current' w1
         | None \<Rightarrow>
             (case createFolder H (vault w1) current' of
                (h, Some e) \<Rightarrow> (Some e, emit (FolderCreation current') (w1\<lparr>vault := h\<rparr>))
              | (h, None) \<Rightarrow>
                  ensureFolders H parts current' (emit (FolderCreation current') (w1\<lparr>vault := h\<rparr>))))"

definition ensureParentFolders :: "'h host \<Rightarrow> string \<Rightarrow> 'h world \<Rightarrow> error option \<times> 'h world" where
  "ensureParentFolders H filePath w =
     (let parts = js_split (CHR ''/'') filePath
      in ensureFolders H (butlast parts) [] w)"

definition archiveFile :: "'h host \<Rightarrow> TFile \<Rightarrow> string \<Rightarrow> 'h world \<Rightarrow> 'h world" where
  "archiveFile H file destination w =
     (let existing = getAbstractFileByPath H (vault w) destination;
          w1 = emit (Lookup destination) w
      in case existing of
           Some found \<Rightarrow>
             emit (Notice (''Cannot archive: file already exists at '' @ destination)) w1
         | None \<Rightarrow>
             (case ensureParentFolders H destination w1 of
                (Some e, w2) \<Rightarrow> caught ''Archive failed: '' ''File Mover: archive failed'' e w2
              | (None, w2) \<Rightarrow>
                  (case renameFile H (vault w2) file destination of
                     (h, Some e) \<Rightarrow>
                       caught ''Archive failed: '' ''File Mover: archive failed'' e
                         (emit (Rename file destination) (w2\<lparr>vault := h\<rparr>))
                   | (h, None) \<Rightarrow>
                       emit (Notice (''Archived to '' @ destination))
                         (emit (Rename file destination) (w2\<lparr>vault := h\<rparr>)))))"

definition removeRecommendedPathProperty ::
  "'h host \<Rightarrow> regexp_constructor \<Rightarrow> FileMoverSettings \<Rightarrow> TFile \<Rightarrow> 'h world
     \<Rightarrow> error option \<times> 'h world" where
  "removeRecommendedPathProperty H newRegExp settings file w =
     (let propName = recommendedPathProperty settings
      in case process H (vault w) file
                (removeRecommendedPathProperty_callback newRegExp propName) of
           (h, failure) \<Rightarrow> (failure, emit (ContentRewrite file) (w\<lparr>vault := h\<rparr>)))"

definition relocateFile ::
  "'h host \<Rightarrow> regexp_constructor \<Rightarrow> FileMoverSettings \<Rightarrow> TFile \<Rightarrow> string \<Rightarrow> 'h world
     \<Rightarrow> 'h world" where
  "relocateFile H newRegExp settings file destination w =
     (let existing = getAbstractFileByPath H (vault w) destination;
          w1 = emit (Lookup destination) w
      in case existing of
           Some found \<Rightarrow>
             emit (Notice (''Cannot move: file already exists at '' @ destination)) w1
         | None \<Rightarrow>
             (case ensureParentFolders H destination w1 of
                (Some e, w2) \<Rightarrow> caught ''Relocate failed: '' ''File Mover: relocate failed'' e w2
              | (None, w2) \<Rightarrow>
                  (case renameFile H (vault w2) file destination of
                     (h, Some e) \<Rightarrow>
                       caught ''Relocate failed: '' ''File Mover: relocate failed'' e
                         (emit (Rename file destination) (w2\<lparr>vault := h\<rparr>))
                   | (h, None) \<Rightarrow>
                       (let w3 = emit (Rename file destination) (w2\<lparr>vault := h\<rparr>);
                            movedFile = getAbstractFileByPath H (vault w3) destination;
                            w4 = emit (Lookup destination) w3
                        in case movedFile of
                             Some (File moved) \<Rightarrow>
                               (case removeRecommendedPathProperty H newRegExp settings moved w4 of
                                  (Some e, w5) \<Rightarrow>
                                    caught ''Relocate failed: '' ''File Mover: relocate failed'' e w5
                                | (None, w5) \<Rightarrow> emit (Notice (''Moved to '' @ destination)) w5)
                           | other \<Rightarrow> emit (Notice (''Moved to '' @ destination)) w4))))"

text \<open>
  The two handlers. With confirmation on, the dialog is opened with the file's name and the
  destination, and the move runs when the user confirms.
\<close>

definition handleArchive ::
  "'h host \<Rightarrow> FileMoverSettings \<Rightarrow> answer \<Rightarrow> TFile \<Rightarrow> 'h world \<Rightarrow> 'h world" where
  "handleArchive H settings reply file w =
     (let destination = archiveFolder settings @ ''/'' @ path file
      in if confirmBeforeMove settings then
           (let w1 = emit (ModalOpened (name file) destination) w
            in case reply of Confirm \<Rightarrow> archiveFile H file destination w1 | Cancel \<Rightarrow> w1)
         else archiveFile H file destination w)"

definition handleRelocate ::
  "'h host \<Rightarrow> regexp_constructor \<Rightarrow> FileMoverSettings \<Rightarrow> answer \<Rightarrow> TFile \<Rightarrow> string
     \<Rightarrow> 'h world \<Rightarrow> 'h world" where
  "handleRelocate H newRegExp settings reply file recommendedPath w =
     (let destination =
            (if js_includes recommendedPath (CHR ''.'') then recommendedPath
             else recommendedPath @ ''.md'')
      in if \<not> isValidVaultPath destination then
           emit (Notice ''Invalid path: must be a relative path within the vault'') w
         else if confirmBeforeMove settings then
           (let w1 = emit (ModalOpened (name file) destination) w
            in case reply of
                 Confirm \<Rightarrow> relocateFile H newRegExp settings file destination w1
               | Cancel \<Rightarrow> w1)
         else relocateFile H newRegExp settings file destination w)"

text \<open>The events of looking folders up and creating them.\<close>

fun isFolderStep :: "event \<Rightarrow> bool" where
  "isFolderStep (Lookup p) = True"
| "isFolderStep (FolderCreation p) = True"
| "isFolderStep other = False"

text \<open>The events added between two worlds.\<close>

definition emitted :: "'h world \<Rightarrow> 'h world \<Rightarrow> event list" where
  "emitted w w' = drop (length (trace w)) (trace w')"

section \<open>A vault in memory\<close>

text \<open>
  A small host to run the handlers on: the vault is a list of paths with what is stored
  there. It files a renamed file under the destination with the empty path parts dropped
  and looks paths up as they are given, so a file moved to a path with a doubled slash is
  not found again under that path.
\<close>

datatype entry = FileEntry string | FolderEntry

type_synonym memVault = "(string \<times> entry) list"

definition normalizePath :: "string \<Rightarrow> string" where
  "normalizePath p = js_join ''/'' (filter (\<lambda>part. part \<noteq> []) (js_split (CHR ''/'') p))"

definition memLookup :: "memVault \<Rightarrow> string \<Rightarrow> TAbstractFile option" where
  "memLookup v p =
     (case map_of v p of
        None \<Rightarrow> None
      | Some (FileEntry content) \<Rightarrow>
          Some (File \<lparr>path = p, name = last (js_split (CHR ''/'') p)\<rparr>)
      | Some FolderEntry \<Rightarrow> Some (Folder p))"

definition memCreateFolder :: "memVault \<Rightarrow> string \<Rightarrow> memVault \<times> error option" where
  "memCreateFolder v p =
     (case map_of v p of
        None \<Rightarrow> ((p, FolderEntry) # v, None)
      | Some found \<Rightarrow> (v, Some (HostError ''Error: Folder already exists.'')))"

definition memRenameFile :: "memVault \<Rightarrow> TFile \<Rightarrow> string \<Rightarrow> memVault \<times> error option" where
  "memRenameFile v file destination =
     (case map_of v (path file) of
        Some (FileEntry content) \<Rightarrow>
          (case map_of v (normalizePath destination) of
             None \<Rightarrow>
               ((normalizePath destination, FileEntry content)
                  # filter (\<lambda>(p, e). p \<noteq> path file) v, None)
           | Some found \<Rightarrow> (v, Some (HostError ''Error: Destination file already exists!'')))
      | other \<Rightarrow> (v, Some (HostError ''Error: File not found'')))"

definition memProcess ::
  "memVault \<Rightarrow> TFile \<Rightarrow> (string \<Rightarrow> error + string) \<Rightarrow> memVault \<times> error option" where
  "memProcess v file fn =
     (case map_of v (path file) of
        Some (FileEntry content) \<Rightarrow>
          (case fn content of
             Inl e \<Rightarrow> (v, Some e)
           | Inr content' \<Rightarrow>
               ((path file, FileEntry content') # filter (\<lambda>(p, e). p \<noteq> path file) v, None))
      | other \<Rightarrow> (v, Some (HostError ''Error: File not found'')))"

definition memHost :: "memVault host" where
  "memHost =
     \<lparr>getAbstractFileByPath = memLookup, createFolder = memCreateFolder,
      renameFile = memRenameFile, process = memProcess\<rparr>"

section \<open>Facts about the string operations\<close>

lemma splitFrom_append:
  "splitFrom sep cur (x @ sep # y) = splitFrom sep cur x @ splitFrom sep [] y"
  by (induction x arbitrary: cur) auto

lemma splitFrom_no_sep: "sep \<notin> set s \<Longrightarrow> splitFrom sep cur s = [cur @ s]"
  by (induction s arbitrary: cur) auto

lemma splitFrom_nonempty: "splitFrom sep cur s \<noteq> []"
  by (induction s arbitrary: cur) auto

lemma splitFrom_segments_free:
  "seg \<in> set (splitFrom sep cur s) \<Longrightarrow> sep \<notin> set cur \<Longrightarrow> sep \<notin> set seg"
proof (induction s arbitrary: cur)
  case Nil
  then show ?case by simp
next
  case (Cons c s)
  show ?case
  proof (cases "c = sep")
    case True
    with Cons.prems have "seg = cur \<or> seg \<in> set (splitFrom sep [] s)" by simp
    then show ?thesis
    proof
      assume "seg = cur"
      with Cons.prems show ?thesis by simp
    next
      assume "seg \<in> set (splitFrom sep [] s)"
      then show ?thesis by (rule Cons.IH) simp
    qed
  next
    case False
    with Cons.prems have "seg \<in> set (splitFrom sep (cur @ [c]) s)" by simp
    then show ?thesis by (rule Cons.IH) (use False Cons.prems in auto)
  qed
qed

lemma splitFrom_join: "js_join [sep] (splitFrom sep cur s) = cur @ s"
proof (induction s arbitrary: cur)
  case Nil
  show ?case by simp
next
  case (Cons c s)
  show ?case
  proof (cases "c = sep")
    case True
    obtain l ls where sp: "splitFrom sep [] s = l # ls"
      using splitFrom_nonempty [of sep "[]" s] by (cases "splitFrom sep [] s") auto
    have "js_join [sep] (l # ls) = s" using Cons.IH [of "[]"] sp by simp
    then show ?thesis using True sp by simp
  next
    case False
    then show ?thesis using Cons.IH [of "cur @ [c]"] by simp
  qed
qed

lemma js_split_nonempty: "js_split sep s \<noteq> []"
  unfolding js_split_def by (rule splitFrom_nonempty)

lemma js_split_append:
  "js_split sep (x @ sep # y) = js_split sep x @ js_split sep y"
  unfolding js_split_def by (rule splitFrom_append)

lemma js_split_no_sep: "sep \<notin> set s \<Longrightarrow> js_split sep s = [s]"
  unfolding js_split_def by (simp add: splitFrom_no_sep)

lemma js_split_segments_free: "seg \<in> set (js_split sep s) \<Longrightarrow> sep \<notin> set seg"
  unfolding js_split_def by (erule splitFrom_segments_free) simp

lemma js_join_split: "js_join [sep] (js_split sep s) = s"
  unfolding js_split_def by (simp add: splitFrom_join)

lemma js_startsWith_iff: "js_startsWith s p = (\<exists>r. s = p @ r)"
proof
  assume "js_startsWith s p"
  then have "take (length p) s = p" by (simp add: js_startsWith_def)
  then have "s = p @ drop (length p) s" by (metis append_take_drop_id)
  then show "\<exists>r. s = p @ r" ..
next
  assume "\<exists>r. s = p @ r"
  then show "js_startsWith s p" by (auto simp: js_startsWith_def)
qed

lemma js_trim_empty_iff: "(js_trim l = []) = list_all isWhiteSpace l"
proof
  assume "js_trim l = []"
  then have "\<forall>x \<in> set (dropWhile isWhiteSpace l). isWhiteSpace x"
    by (simp add: js_trim_def dropWhile_eq_Nil_conv)
  moreover have "dropWhile isWhiteSpace l \<noteq> [] \<Longrightarrow> \<not> isWhiteSpace (hd (dropWhile isWhiteSpace l))"
    by (rule hd_dropWhile)
  ultimately have "dropWhile isWhiteSpace l = []"
    by (cases "dropWhile isWhiteSpace l") auto
  then show "list_all isWhiteSpace l"
    by (simp add: dropWhile_eq_Nil_conv list_all_iff)
next
  assume "list_all isWhiteSpace l"
  then have d: "dropWhile isWhiteSpace l = []"
    by (simp add: dropWhile_eq_Nil_conv list_all_iff)
  show "js_trim l = []" by (simp only: js_trim_def d rev.simps dropWhile.simps)
qed

lemma splitFrom_hd: "hd (splitFrom sep cur s) = cur @ takeWhile (\<lambda>c. c \<noteq> sep) s"
  by (induction s arbitrary: cur) auto

lemma splitFrom_cur:
  "splitFrom sep cur s = (cur @ hd (splitFrom sep [] s)) # tl (splitFrom sep [] s)"
proof (induction s arbitrary: cur)
  case Nil
  show ?case by simp
next
  case (Cons c s)
  show ?case
  proof (cases "c = sep")
    case True
    then show ?thesis by simp
  next
    case False
    have "splitFrom sep (cur @ [c]) s
          = ((cur @ [c]) @ hd (splitFrom sep [] s)) # tl (splitFrom sep [] s)"
      by (rule Cons.IH)
    moreover have "splitFrom sep [c] s = ([c] @ hd (splitFrom sep [] s)) # tl (splitFrom sep [] s)"
      by (rule Cons.IH)
    ultimately show ?thesis using False by simp
  qed
qed

lemma splitFrom_replace_separator:
  assumes "seg \<in> set (splitFrom sep cur s)" and "b \<notin> set seg" and "b \<notin> set cur" and "b \<noteq> sep"
  shows "seg \<in> set (splitFrom sep cur (map (\<lambda>c. if c = b then sep else c) s))"
  using assms
proof (induction s arbitrary: cur)
  case Nil
  then show ?case by simp
next
  case (Cons c s)
  let ?g = "\<lambda>c. if c = b then sep else c"
  show ?case
  proof (cases "c = sep")
    case True
    with Cons.prems have "seg = cur \<or> seg \<in> set (splitFrom sep [] s)" by simp
    then show ?thesis
    proof
      assume "seg = cur"
      with True Cons.prems(4) show ?thesis by simp
    next
      assume "seg \<in> set (splitFrom sep [] s)"
      then have "seg \<in> set (splitFrom sep [] (map ?g s))"
        using Cons.prems(2,4) by (intro Cons.IH) simp_all
      with True Cons.prems(4) show ?thesis by simp
    qed
  next
    case False
    show ?thesis
    proof (cases "c = b")
      case True
      have sp: "splitFrom sep (cur @ [b]) s
            = ((cur @ [b]) @ hd (splitFrom sep [] s)) # tl (splitFrom sep [] s)"
        by (rule splitFrom_cur)
      from Cons.prems(1) True False have "seg \<in> set (splitFrom sep (cur @ [b]) s)" by simp
      with sp have "seg = (cur @ [b]) @ hd (splitFrom sep [] s) \<or> seg \<in> set (tl (splitFrom sep [] s))"
        by simp
      with Cons.prems(2) have "seg \<in> set (tl (splitFrom sep [] s))" by auto
      moreover have "splitFrom sep [] s \<noteq> []" by (rule splitFrom_nonempty)
      ultimately have "seg \<in> set (splitFrom sep [] s)" by (auto dest: list.set_sel(2))
      then have "seg \<in> set (splitFrom sep [] (map ?g s))"
        using Cons.prems(2,4) by (intro Cons.IH) simp_all
      with True show ?thesis by simp
    next
      case nb: False
      from Cons.prems(1) False have "seg \<in> set (splitFrom sep (cur @ [c]) s)" by simp
      then have "seg \<in> set (splitFrom sep (cur @ [c]) (map ?g s))"
        using Cons.prems(2,3,4) nb by (intro Cons.IH) simp_all
      with False nb show ?thesis by simp
    qed
  qed
qed

section \<open>Path validator: properties\<close>

text \<open>
  Claim C4. For every string \<open>p\<close>, \<open>isValidVaultPath p\<close> is true if and only if \<open>p\<close> does
  not match \<open>^[A-Za-z]:\<close>, does not start with \<open>/\<close>, and, after every backslash is replaced
  by \<open>/\<close> and the result is split on \<open>/\<close>, no segment equals \<open>..\<close>.
\<close>

theorem isValidVaultPath_iff:
  "isValidVaultPath p =
     (\<not> (\<exists>c rest. p = c # CHR '':'' # rest \<and> isAsciiLetter c)
      \<and> \<not> (\<exists>rest. p = CHR ''/'' # rest)
      \<and> ''..'' \<notin> set (js_split (CHR ''/'') (replaceBackslashes p)))"
proof -
  have drive: "testDrivePrefix p = (\<exists>c rest. p = c # CHR '':'' # rest \<and> isAsciiLetter c)"
    by (auto simp: testDrivePrefix_def split: list.splits)
  have slash: "js_startsWith p ''/'' = (\<exists>rest. p = CHR ''/'' # rest)"
    by (cases p) (auto simp: js_startsWith_def)
  have seg: "list_ex (\<lambda>s. s = ''..'') xs = (''..'' \<in> set xs)" for xs :: "string list"
    by (induction xs) auto
  show ?thesis
    unfolding isValidVaultPath_def Let_def drive slash seg by auto
qed

theorem isValidVaultPath_iff_witness:
  "isValidVaultPath ''03_Areas/Note.md''
   \<and> \<not> isValidVaultPath ''../secret.md''
   \<and> \<not> isValidVaultPath ''C:/x.md''
   \<and> \<not> isValidVaultPath ''/etc/x''
   \<and> \<not> isValidVaultPath (''a'' @ [backslash] @ ''..'' @ [backslash] @ ''b'')"
proof -
  have a: "isValidVaultPath ''03_Areas/Note.md''"
    unfolding isValidVaultPath_iff by (simp add: replaceBackslashes_def backslash_def js_split_def)
  have b: "\<not> isValidVaultPath ''../secret.md''"
    unfolding isValidVaultPath_iff by (simp add: replaceBackslashes_def backslash_def js_split_def)
  have c: "\<not> isValidVaultPath ''C:/x.md''"
    unfolding isValidVaultPath_iff by (simp add: isAsciiLetter_def)
  have d: "\<not> isValidVaultPath ''/etc/x''"
    unfolding isValidVaultPath_iff by simp
  have e: "\<not> isValidVaultPath (''a'' @ [backslash] @ ''..'' @ [backslash] @ ''b'')"
    unfolding isValidVaultPath_iff by (simp add: replaceBackslashes_def backslash_def js_split_def)
  from a b c d e show ?thesis by blast
qed

text \<open>
  A segment \<open>..\<close> between slashes is still a segment after the backslashes have become
  slashes: a path the validator accepts has no \<open>..\<close> segment under either reading.
\<close>

lemma dotdot_segment_replaceBackslashes:
  "''..'' \<in> set (js_split (CHR ''/'') d) \<Longrightarrow>
   ''..'' \<in> set (js_split (CHR ''/'') (replaceBackslashes d))"
  unfolding js_split_def replaceBackslashes_def
  by (rule splitFrom_replace_separator) (simp_all add: backslash_def)

section \<open>Frontmatter field remover: properties\<close>

subsection \<open>The fence pattern\<close>

text \<open>
  The pattern finds a decomposition of the content into \<open>---\<close>, a line feed, a block, a line
  feed, \<open>---\<close> and a rest; it finds one whenever there is one, and the block it finds is
  the shortest.
\<close>

lemma findClosingFence_sound:
  "findClosingFence s = Some (block, rest) \<Longrightarrow> s = block @ ''\<newline>---'' @ rest"
proof (induction s arbitrary: block)
  case Nil
  then show ?case by simp
next
  case (Cons c cs)
  show ?case
  proof (cases "js_startsWith (c # cs) ''\<newline>---''")
    case True
    with Cons.prems have b: "block = []" and r: "rest = drop (length ''\<newline>---'') (c # cs)"
      by auto
    from True obtain t where t: "c # cs = ''\<newline>---'' @ t"
      unfolding js_startsWith_iff by blast
    then have "drop (length ''\<newline>---'') (c # cs) = t" by simp
    with b r t show ?thesis by simp
  next
    case False
    with Cons.prems obtain b' where f: "findClosingFence cs = Some (b', rest)" and b: "block = c # b'"
      by (auto split: option.splits)
    from Cons.IH [OF f] b show ?thesis by simp
  qed
qed

lemma findClosingFence_complete:
  "findClosingFence (b @ ''\<newline>---'' @ r) \<noteq> None"
proof (induction b)
  case Nil
  have "js_startsWith (''\<newline>---'' @ r) ''\<newline>---''"
    unfolding js_startsWith_iff by blast
  then show ?case by simp
next
  case (Cons c b)
  then show ?case by (auto split: option.splits)
qed

lemma findClosingFence_shortest:
  "findClosingFence s = Some (block, rest) \<Longrightarrow> s = b @ ''\<newline>---'' @ r \<Longrightarrow> length block \<le> length b"
proof (induction s arbitrary: block b)
  case Nil
  then show ?case by simp
next
  case (Cons c cs)
  show ?case
  proof (cases "js_startsWith (c # cs) ''\<newline>---''")
    case True
    with Cons.prems(1) have "block = []" by auto
    then show ?thesis by simp
  next
    case False
    with Cons.prems(1) obtain b' where f: "findClosingFence cs = Some (b', rest)" and bl: "block = c # b'"
      by (auto split: option.splits)
    show ?thesis
    proof (cases b)
      case Nil
      with Cons.prems(2) have "js_startsWith (c # cs) ''\<newline>---''"
        unfolding js_startsWith_iff by auto
      with False show ?thesis by simp
    next
      case (Cons d ds)
      with Cons.prems(2) have "cs = ds @ ''\<newline>---'' @ r" by simp
      from Cons.IH [OF f this] bl Cons show ?thesis by simp
    qed
  qed
qed

lemma matchFrontmatter_sound:
  assumes "matchFrontmatter content = Some (matched, fmBlock, rest)"
  shows "content = ''---\<newline>'' @ fmBlock @ ''\<newline>---'' @ rest"
    and "matched = ''---\<newline>'' @ fmBlock @ ''\<newline>---''"
proof -
  from assms have st: "js_startsWith content ''---\<newline>''"
    and f: "findClosingFence (drop (length ''---\<newline>'') content) = Some (fmBlock, rest)"
    and m: "matched = ''---\<newline>'' @ fmBlock @ ''\<newline>---''"
    by (auto simp: matchFrontmatter_def split: if_splits option.splits)
  from st obtain t where t: "content = ''---\<newline>'' @ t"
    unfolding js_startsWith_iff by blast
  then have "drop (length ''---\<newline>'') content = t" by simp
  with findClosingFence_sound [OF f] t show "content = ''---\<newline>'' @ fmBlock @ ''\<newline>---'' @ rest"
    by simp
  from m show "matched = ''---\<newline>'' @ fmBlock @ ''\<newline>---''" .
qed

lemma matchFrontmatter_complete:
  "matchFrontmatter (''---\<newline>'' @ b @ ''\<newline>---'' @ r) \<noteq> None"
proof -
  have st: "js_startsWith (''---\<newline>'' @ b @ ''\<newline>---'' @ r) ''---\<newline>''"
    unfolding js_startsWith_iff by blast
  have "drop (length ''---\<newline>'') (''---\<newline>'' @ b @ ''\<newline>---'' @ r) = b @ ''\<newline>---'' @ r"
    by simp
  with findClosingFence_complete [of b r] st show ?thesis
    by (auto simp: matchFrontmatter_def split: option.splits)
qed

lemma matchFrontmatter_fenceStart:
  assumes "matchFrontmatter content = Some (matched, fmBlock, rest)"
  shows "hasLeadingFenceStart content"
proof -
  have c: "content = ''---'' @ NL # (fmBlock @ NL # (''---'' @ rest))"
    using matchFrontmatter_sound(1) [OF assms] by (simp add: NL_def)
  have first: "js_split NL ''---'' = [''---'']"
    by (rule js_split_no_sep) (simp add: NL_def)
  obtain t where t: "hd (splitFrom NL ''---'' rest) = ''---'' @ t"
    using splitFrom_hd [of NL "''---''" rest] by blast
  have "js_split NL (''---'' @ rest) = splitFrom NL ''---'' rest"
    by (simp add: js_split_def NL_def)
  moreover have "splitFrom NL ''---'' rest \<noteq> []" by (rule splitFrom_nonempty)
  ultimately have "hd (js_split NL (''---'' @ rest)) \<in> set (js_split NL (''---'' @ rest))"
    by simp
  moreover have "js_startsWith (hd (js_split NL (''---'' @ rest))) ''---''"
    unfolding js_startsWith_iff using t \<open>js_split NL (''---'' @ rest) = splitFrom NL ''---'' rest\<close>
    by auto
  ultimately have ex: "list_ex (\<lambda>l. js_startsWith l ''---'')
      (js_split NL fmBlock @ js_split NL (''---'' @ rest))"
    by (auto simp: list_ex_iff)
  have "js_split NL content = ''---'' # (js_split NL fmBlock @ js_split NL (''---'' @ rest))"
    unfolding c js_split_append first by simp
  with ex show ?thesis by (simp add: hasLeadingFenceStart_def)
qed

subsection \<open>Replacement templates, line filter, field patterns\<close>

lemma getSubstitution_no_dollar:
  "CHR ''$'' \<notin> set t \<Longrightarrow> getSubstitution m p f t = t"
  by (induction m p f t rule: getSubstitution.induct) auto

lemma filterLines_compiled:
  "newRegExp (fieldPatternSource propName) = Some re \<Longrightarrow>
   filterLines newRegExp propName lines = Inr (filter (\<lambda>l. \<not> re l) lines)"
  by (induction lines) auto

lemma filterLines_throws:
  "newRegExp (fieldPatternSource propName) = None \<Longrightarrow> lines \<noteq> [] \<Longrightarrow>
   filterLines newRegExp propName lines = Inl SyntaxError"
  by (cases lines) auto

lemma plainRegExp_field:
  "\<not> list_ex syntaxCharacter propName \<Longrightarrow>
   plainRegExp (fieldPatternSource propName) = Some (testFieldPattern propName)"
  by (simp add: plainRegExp_def fieldPatternSource_def Let_def)




lemmas remover_defs =
  removeRecommendedPathProperty_callback_def matchFrontmatter_def matchFence_def
  matchFenceNewline_def js_replace_def js_startsWith_def js_split_def js_trim_def
  fieldPatternSource_def plainRegExp_def testFieldPattern_def syntaxCharacter_def
  isWhiteSpace_def NL_def backslash_def Let_def

subsection \<open>Documents without frontmatter\<close>

text \<open>
  Claim C6. For every document that does not start with a fenced frontmatter block (no line
  \<open>---\<close> at the very start followed later by a closing line \<open>---\<close>) and every field name,
  the field remover returns the document unchanged.

  As stated the claim fails: the pattern \<open>/^---\n([\s\S]*?)\n---/\<close> does not ask for the end
  of the line after the closing dashes, so a later line that merely begins with \<open>---\<close>
  closes the block. In the document below the second delimiter line is \<open>----\<close>; no line
  after the first is \<open>---\<close>, and yet the remover deletes the block and leaves \<open>-\<close>.
\<close>

theorem removeField_closing_line_counterexample:
  "\<not> spec_hasLeadingFence ''---\<newline>recommended_path: x\<newline>----\<newline>body text''
   \<and> removeRecommendedPathProperty_callback plainRegExp ''recommended_path''
        ''---\<newline>recommended_path: x\<newline>----\<newline>body text''
      = Inr ''-\<newline>body text''"
  by (simp add: remover_defs spec_hasLeadingFence_def)

text \<open>
  Claim C6, amended. For every document that does not start with a line \<open>---\<close> followed
  later by a line that begins with \<open>---\<close>, and every field name (whatever the constructor
  makes of its pattern), the field remover returns the document unchanged.
\<close>

theorem removeField_identity_without_fence:
  "\<not> hasLeadingFenceStart content \<Longrightarrow>
   removeRecommendedPathProperty_callback newRegExp propName content = Inr content"
proof -
  assume n: "\<not> hasLeadingFenceStart content"
  have "matchFrontmatter content = None"
  proof (cases "matchFrontmatter content")
    case None
    then show ?thesis .
  next
    case (Some a)
    obtain m b r where "a = (m, b, r)" by (cases a) auto
    with Some matchFrontmatter_fenceStart n show ?thesis by blast
  qed
  then show ?thesis by (simp add: removeRecommendedPathProperty_callback_def)
qed

theorem removeField_identity_without_fence_witness:
  "\<not> hasLeadingFenceStart ''body text''
   \<and> removeRecommendedPathProperty_callback plainRegExp ''recommended_path'' ''body text''
       = Inr ''body text''
   \<and> \<not> hasLeadingFenceStart ''---\<newline>recommended_path: x\<newline>body text''
   \<and> removeRecommendedPathProperty_callback plainRegExp ''recommended_path''
         ''---\<newline>recommended_path: x\<newline>body text''
       = Inr ''---\<newline>recommended_path: x\<newline>body text''"
proof -
  have a: "\<not> hasLeadingFenceStart ''body text''"
    by (simp add: hasLeadingFenceStart_def js_split_def NL_def js_startsWith_def)
  have b: "\<not> hasLeadingFenceStart ''---\<newline>recommended_path: x\<newline>body text''"
    by (simp add: hasLeadingFenceStart_def js_split_def NL_def js_startsWith_def)
  from a b removeField_identity_without_fence [OF a] removeField_identity_without_fence [OF b]
  show ?thesis by blast
qed

subsection \<open>A block that becomes blank\<close>

text \<open>
  Claim C5. For every document with a leading frontmatter fence, if after removing the
  field's lines every remaining line of the block is blank or white space only, the remover
  deletes the entire fence (both delimiters and the block) plus exactly one trailing line
  feed if one is present, leaving only the body.

  As stated, with the fence read by lines (an opening line \<open>---\<close> and the first later line
  \<open>---\<close>), the claim fails, for the fence the pattern finds is another one. The pattern
  wants a line feed before the closing dashes, so a fence with no line between its
  delimiters is not found: the first document below is returned as it is. And the pattern
  closes the block at the first later line that begins with \<open>---\<close>: in the second document,
  with the field name \<open>---x\<close>, the block by lines is an empty line and the line of the
  field, yet the remover cuts the document inside that line.
\<close>

theorem removeField_blank_fence_counterexample:
  "spec_hasLeadingFence ''---\<newline>---\<newline>body''
   \<and> spec_fenceBlock ''---\<newline>---\<newline>body'' = []
   \<and> removeRecommendedPathProperty_callback plainRegExp ''recommended_path''
        ''---\<newline>---\<newline>body''
      = Inr ''---\<newline>---\<newline>body''
   \<and> spec_hasLeadingFence ''---\<newline>\<newline>---x: 1\<newline>---\<newline>body''
   \<and> filter (\<lambda>l. \<not> spec_removesLine ''---x'' l)
        (spec_fenceBlock ''---\<newline>\<newline>---x: 1\<newline>---\<newline>body'') = [[]]
   \<and> removeRecommendedPathProperty_callback plainRegExp ''---x''
        ''---\<newline>\<newline>---x: 1\<newline>---\<newline>body''
      = Inr ''x: 1\<newline>---\<newline>body''"
  by (simp add: remover_defs spec_hasLeadingFence_def spec_fenceBlock_def spec_removesLine_def)

text \<open>
  Claim C5, amended. For every document on which the fence pattern matches (an opening
  line \<open>---\<close>, a block of at least one line, which may be empty, and the first line after
  the block's first that begins with \<open>---\<close>), if after removing the field's lines every
  remaining line of that block is blank or white space only, the remover deletes the matched
  fence (the opening line, the block and the closing dashes) plus exactly one trailing line
  feed if one is present, leaving what follows.

  \<open>matchFrontmatter_sound\<close>, \<open>matchFrontmatter_complete\<close> and \<open>findClosingFence_shortest\<close>
  say which fence the pattern finds. The lines of the field are those the compiled pattern
  \<open>re\<close> matches, for any constructor that compiles the pattern of the field name. The
  first conjunct recalls that the content is the fence followed by \<open>rest\<close>; the result is
  \<open>rest\<close> without one leading line feed.
\<close>

theorem removeField_deletes_blank_fence:
  assumes "matchFrontmatter content = Some (matched, fmBlock, rest)"
    and "newRegExp (fieldPatternSource propName) = Some re"
    and "list_all (\<lambda>l. re l \<or> js_trim l = []) (js_split NL fmBlock)"
  shows "content = ''---\<newline>'' @ fmBlock @ ''\<newline>---'' @ rest \<and>
         removeRecommendedPathProperty_callback newRegExp propName content =
           Inr (case rest of [] \<Rightarrow> [] | c # rest' \<Rightarrow> if c = NL then rest' else rest)"
proof -
  have f: "filterLines newRegExp propName (js_split NL fmBlock) =
           Inr (filter (\<lambda>l. \<not> re l) (js_split NL fmBlock))"
    using assms(2) by (rule filterLines_compiled)
  have blank: "list_all (\<lambda>l. js_trim l = []) (filter (\<lambda>l. \<not> re l) (js_split NL fmBlock))"
    using assms(3) by (auto simp: list_all_iff)
  have r: "js_replace matchFenceNewline [] content =
           (case rest of [] \<Rightarrow> [] | c # rest' \<Rightarrow> if c = NL then rest' else rest)"
    using assms(1) by (simp add: js_replace_def matchFenceNewline_def split: list.splits)
  have "removeRecommendedPathProperty_callback newRegExp propName content =
        Inr (js_replace matchFenceNewline [] content)"
    using assms(1) f blank by (simp add: removeRecommendedPathProperty_callback_def)
  with r matchFrontmatter_sound(1) [OF assms(1)] show ?thesis by simp
qed

theorem removeField_deletes_blank_fence_witness:
  "removeRecommendedPathProperty_callback plainRegExp ''recommended_path''
     ''---\<newline>recommended_path: x\<newline>---\<newline>body text'' = Inr ''body text''"
proof -
  have m: "matchFrontmatter ''---\<newline>recommended_path: x\<newline>---\<newline>body text''
           = Some (''---\<newline>recommended_path: x\<newline>---'', ''recommended_path: x'', ''\<newline>body text'')"
    by (simp add: matchFrontmatter_def js_startsWith_def)
  have e: "plainRegExp (fieldPatternSource ''recommended_path'')
           = Some (testFieldPattern ''recommended_path'')"
    by (rule plainRegExp_field) (simp add: syntaxCharacter_def backslash_def)
  have b: "list_all (\<lambda>l. testFieldPattern ''recommended_path'' l \<or> js_trim l = [])
             (js_split NL ''recommended_path: x'')"
    by (simp add: js_split_def NL_def testFieldPattern_def js_startsWith_def isWhiteSpace_def)
  from removeField_deletes_blank_fence
         [where newRegExp = plainRegExp and propName = "''recommended_path''"
            and re = "testFieldPattern ''recommended_path''", OF m e b]
  show ?thesis by (simp add: NL_def)
qed

subsection \<open>A block that keeps lines\<close>

text \<open>
  When no kept line contains a dollar sign, the fence is reassembled from exactly the
  filtered lines, in their order, and the rest of the document follows unchanged.
\<close>

lemma removeField_reassembles:
  assumes "matchFrontmatter content = Some (matched, fmBlock, rest)"
    and "newRegExp (fieldPatternSource propName) = Some re"
    and "filtered = filter (\<lambda>l. \<not> re l) (js_split NL fmBlock)"
    and "\<not> list_all (\<lambda>l. js_trim l = []) filtered"
    and "CHR ''$'' \<notin> set (js_join [NL] filtered)"
  shows "removeRecommendedPathProperty_callback newRegExp propName content =
           Inr (''---\<newline>'' @ js_join [NL] filtered @ ''\<newline>---'' @ rest)"
proof -
  have f: "filterLines newRegExp propName (js_split NL fmBlock) = Inr filtered"
    unfolding assms(3) using assms(2) by (rule filterLines_compiled)
  have d: "CHR ''$'' \<notin> set (''---\<newline>'' @ js_join [NL] filtered @ ''\<newline>---'')"
    using assms(5) by simp
  have "js_replace matchFence (''---\<newline>'' @ js_join [NL] filtered @ ''\<newline>---'') content =
        (''---\<newline>'' @ js_join [NL] filtered @ ''\<newline>---'') @ rest"
    using assms(1) getSubstitution_no_dollar [OF d]
    by (simp add: js_replace_def matchFence_def)
  then show ?thesis
    using assms(1,4) f by (simp add: removeRecommendedPathProperty_callback_def)
qed

text \<open>
  Claim C3. For every document with a leading frontmatter fence and every field name such
  that the filtered block is not all blank, the remover returns the document with the fence
  reassembled from exactly the filtered lines in their original order, and with every
  character after the closing fence identical to the input.

  The code passes the reassembled fence to \<open>replace\<close> as the replacement string, where a
  dollar sign starts a replacement pattern. On the document below the kept line
  \<open>price: $$5\<close> comes back as \<open>price: $5\<close>: the fence is not reassembled from exactly the
  filtered lines.
\<close>

theorem removeField_dollar_failing_input:
  "removeRecommendedPathProperty_callback plainRegExp ''recommended_path''
     ''---\<newline>recommended_path: x\<newline>price: $$5\<newline>---\<newline>body text''
   = Inr ''---\<newline>price: $5\<newline>---\<newline>body text''"
  by (simp add: remover_defs)

subsection \<open>Which lines are removed\<close>




section \<open>Move orchestrator: properties\<close>

subsection \<open>The events of a move\<close>

lemma trace_emit: "trace (emit e w) = trace w @ [e]"
  by (simp add: emit_def)

lemma emitted_append: "trace w' = trace w @ evs \<Longrightarrow> emitted w w' = evs"
  by (simp add: emitted_def)

lemma trace_caught:
  "trace (caught p c e w) = trace w @ [ErrorNotice p e, ConsoleError c e]"
  by (simp add: caught_def emit_def)

lemma ensureFolders_trace:
  "\<exists>evs. trace (snd (ensureFolders H parts current w)) = trace w @ evs \<and> list_all isFolderStep evs"
proof (induction parts arbitrary: current w)
  case Nil
  show ?case by simp
next
  case (Cons part parts)
  define cur where "cur = (if current \<noteq> [] then current @ ''/'' @ part else part)"
  define w1 where "w1 = emit (Lookup cur) w"
  have t1: "trace w1 = trace w @ [Lookup cur]" by (simp add: w1_def trace_emit)
  show ?case
  proof (cases "getAbstractFileByPath H (vault w) cur")
    case (Some found)
    then have eq: "ensureFolders H (part # parts) current w = ensureFolders H parts cur w1"
      by (simp add: cur_def w1_def Let_def)
    obtain evs where "trace (snd (ensureFolders H parts cur w1)) = trace w1 @ evs"
      and "list_all isFolderStep evs" using Cons.IH by blast
    with eq t1 have "trace (snd (ensureFolders H (part # parts) current w)) = trace w @ (Lookup cur # evs)
        \<and> list_all isFolderStep (Lookup cur # evs)" by simp
    then show ?thesis by blast
  next
    case None
    obtain h failure where cf: "createFolder H (vault w1) cur = (h, failure)"
      by (cases "createFolder H (vault w1) cur") auto
    define w2 where "w2 = emit (FolderCreation cur) (w1\<lparr>vault := h\<rparr>)"
    have t2: "trace w2 = trace w @ [Lookup cur, FolderCreation cur]"
      by (simp add: w2_def trace_emit t1)
    show ?thesis
    proof (cases failure)
      case (Some e)
      with None cf have "ensureFolders H (part # parts) current w = (Some e, w2)"
        by (simp add: cur_def w1_def w2_def Let_def)
      with t2 have "trace (snd (ensureFolders H (part # parts) current w))
          = trace w @ [Lookup cur, FolderCreation cur]
        \<and> list_all isFolderStep [Lookup cur, FolderCreation cur]" by simp
      then show ?thesis by blast
    next
      case None2: None
      with None cf have eq: "ensureFolders H (part # parts) current w = ensureFolders H parts cur w2"
        by (simp add: cur_def w1_def w2_def Let_def)
      obtain evs where "trace (snd (ensureFolders H parts cur w2)) = trace w2 @ evs"
        and "list_all isFolderStep evs" using Cons.IH by blast
      with eq t2 have "trace (snd (ensureFolders H (part # parts) current w))
          = trace w @ (Lookup cur # FolderCreation cur # evs)
        \<and> list_all isFolderStep (Lookup cur # FolderCreation cur # evs)" by simp
      then show ?thesis by blast
    qed
  qed
qed

lemma ensureParentFolders_trace:
  "\<exists>evs. trace (snd (ensureParentFolders H filePath w)) = trace w @ evs \<and> list_all isFolderStep evs"
  unfolding ensureParentFolders_def Let_def by (rule ensureFolders_trace)

lemma folderStep_not_move:
  "list_all isFolderStep evs \<Longrightarrow> e \<in> set evs \<Longrightarrow> e \<noteq> Rename f d \<and> e \<noteq> ModalOpened n d"
  by (auto simp: list_all_iff)

lemma archiveFile_trace:
  "\<exists>evs. trace (archiveFile H file destination w) = trace w @ evs
     \<and> (\<forall>f d. Rename f d \<in> set evs \<longrightarrow> f = file \<and> d = destination)
     \<and> (\<forall>n d. ModalOpened n d \<notin> set evs)
     \<and> (\<exists>rest. evs = Lookup destination # rest)"
proof -
  define w1 where "w1 = emit (Lookup destination) w"
  have t1: "trace w1 = trace w @ [Lookup destination]" by (simp add: w1_def trace_emit)
  show ?thesis
  proof (cases "getAbstractFileByPath H (vault w) destination")
    case (Some found)
    then have "trace (archiveFile H file destination w) = trace w @
        [Lookup destination, Notice (''Cannot archive: file already exists at '' @ destination)]"
      by (simp add: archiveFile_def Let_def trace_emit)
    then show ?thesis by auto
  next
    case None
    obtain failure w2 where ep: "ensureParentFolders H destination w1 = (failure, w2)"
      by (cases "ensureParentFolders H destination w1") auto
    obtain evs where t2: "trace w2 = trace w1 @ evs" and fs: "list_all isFolderStep evs"
      using ensureParentFolders_trace [of H destination w1] ep by auto
    have nomove: "\<And>f d. Rename f d \<notin> set evs" "\<And>n d. ModalOpened n d \<notin> set evs"
      using folderStep_not_move [OF fs] by blast+
    show ?thesis
    proof (cases failure)
      case (Some e)
      with None ep have "trace (archiveFile H file destination w) = trace w @
          (Lookup destination # evs @ [ErrorNotice ''Archive failed: '' e,
             ConsoleError ''File Mover: archive failed'' e])"
        by (simp add: archiveFile_def Let_def w1_def [symmetric] trace_caught t2 t1)
      with nomove show ?thesis by auto
    next
      case None2: None
      obtain h failure2 where rn: "renameFile H (vault w2) file destination = (h, failure2)"
        by (cases "renameFile H (vault w2) file destination") auto
      show ?thesis
      proof (cases failure2)
        case (Some e)
        with None None2 ep rn have "trace (archiveFile H file destination w) = trace w @
            (Lookup destination # evs @ [Rename file destination,
               ErrorNotice ''Archive failed: '' e,
               ConsoleError ''File Mover: archive failed'' e])"
          by (simp add: archiveFile_def Let_def w1_def [symmetric] trace_caught trace_emit t2 t1)
        with nomove show ?thesis by auto
      next
        case None3: None
        with None None2 ep rn have "trace (archiveFile H file destination w) = trace w @
            (Lookup destination # evs @ [Rename file destination,
               Notice (''Archived to '' @ destination)])"
          by (simp add: archiveFile_def Let_def w1_def [symmetric] trace_emit t2 t1)
        with nomove show ?thesis by auto
      qed
    qed
  qed
qed

lemma removeRecommendedPathProperty_trace:
  "trace (snd (removeRecommendedPathProperty H newRegExp settings file w))
     = trace w @ [ContentRewrite file]"
  by (simp add: removeRecommendedPathProperty_def Let_def trace_emit split: prod.splits)

lemma relocateFile_trace:
  "\<exists>evs. trace (relocateFile H newRegExp settings file destination w) = trace w @ evs
     \<and> (\<forall>f d. Rename f d \<in> set evs \<longrightarrow> f = file \<and> d = destination)
     \<and> (\<forall>n d. ModalOpened n d \<notin> set evs)
     \<and> (\<exists>rest. evs = Lookup destination # rest)"
proof -
  define w1 where "w1 = emit (Lookup destination) w"
  have t1: "trace w1 = trace w @ [Lookup destination]" by (simp add: w1_def trace_emit)
  show ?thesis
  proof (cases "getAbstractFileByPath H (vault w) destination")
    case (Some found)
    then have "trace (relocateFile H newRegExp settings file destination w) = trace w @
        [Lookup destination, Notice (''Cannot move: file already exists at '' @ destination)]"
      by (simp add: relocateFile_def Let_def trace_emit)
    then show ?thesis by auto
  next
    case None
    obtain failure w2 where ep: "ensureParentFolders H destination w1 = (failure, w2)"
      by (cases "ensureParentFolders H destination w1") auto
    obtain evs where t2: "trace w2 = trace w1 @ evs" and fs: "list_all isFolderStep evs"
      using ensureParentFolders_trace [of H destination w1] ep by auto
    have nomove: "\<And>f d. Rename f d \<notin> set evs" "\<And>n d. ModalOpened n d \<notin> set evs"
      using folderStep_not_move [OF fs] by blast+
    show ?thesis
    proof (cases failure)
      case (Some e)
      with None ep have "trace (relocateFile H newRegExp settings file destination w) = trace w @
          (Lookup destination # evs @ [ErrorNotice ''Relocate failed: '' e,
             ConsoleError ''File Mover: relocate failed'' e])"
        by (simp add: relocateFile_def Let_def w1_def [symmetric] trace_caught t2 t1)
      with nomove show ?thesis by auto
    next
      case None2: None
      obtain h failure2 where rn: "renameFile H (vault w2) file destination = (h, failure2)"
        by (cases "renameFile H (vault w2) file destination") auto
      show ?thesis
      proof (cases failure2)
        case (Some e)
        with None None2 ep rn have "trace (relocateFile H newRegExp settings file destination w) = trace w @
            (Lookup destination # evs @ [Rename file destination,
               ErrorNotice ''Relocate failed: '' e,
               ConsoleError ''File Mover: relocate failed'' e])"
          by (simp add: relocateFile_def Let_def w1_def [symmetric] trace_caught trace_emit t2 t1)
        with nomove show ?thesis by auto
      next
        case None3: None
        define w3 where "w3 = emit (Rename file destination) (w2\<lparr>vault := h\<rparr>)"
        define w4 where "w4 = emit (Lookup destination) w3"
        have t4: "trace w4 = trace w @ (Lookup destination # evs @
            [Rename file destination, Lookup destination])"
          by (simp add: w4_def w3_def trace_emit t2 t1)
        have skip: "trace (emit (Notice (''Moved to '' @ destination)) w4) = trace w @
            (Lookup destination # evs @
              [Rename file destination, Lookup destination, Notice (''Moved to '' @ destination)])"
          by (simp add: trace_emit t4)
        show ?thesis
        proof (cases "getAbstractFileByPath H (vault w3) destination")
          case None4: None
          with None None2 None3 ep rn
          have "relocateFile H newRegExp settings file destination w
                = emit (Notice (''Moved to '' @ destination)) w4"
            by (simp add: relocateFile_def Let_def w1_def [symmetric] w3_def [symmetric] w4_def [symmetric])
          with skip nomove show ?thesis by auto
        next
          case (Some found)
          show ?thesis
          proof (cases found)
            case (Folder p)
            with Some None None2 None3 ep rn
            have "relocateFile H newRegExp settings file destination w
                  = emit (Notice (''Moved to '' @ destination)) w4"
              by (simp add: relocateFile_def Let_def w1_def [symmetric] w3_def [symmetric] w4_def [symmetric])
            with skip nomove show ?thesis by auto
          next
            case (File moved)
            obtain failure3 w5 where rp:
              "removeRecommendedPathProperty H newRegExp settings moved w4 = (failure3, w5)"
              by (cases "removeRecommendedPathProperty H newRegExp settings moved w4") auto
            have t5: "trace w5 = trace w4 @ [ContentRewrite moved]"
              using removeRecommendedPathProperty_trace [of H newRegExp settings moved w4] rp by simp
            show ?thesis
            proof (cases failure3)
              case None5: None
              with File Some None None2 None3 ep rn rp
              have "relocateFile H newRegExp settings file destination w
                    = emit (Notice (''Moved to '' @ destination)) w5"
                by (simp add: relocateFile_def Let_def w1_def [symmetric] w3_def [symmetric] w4_def [symmetric])
              then have "trace (relocateFile H newRegExp settings file destination w) = trace w @
                  (Lookup destination # evs @
                    [Rename file destination, Lookup destination, ContentRewrite moved,
                     Notice (''Moved to '' @ destination)])"
                by (simp add: trace_emit t5 t4)
              with nomove show ?thesis by auto
            next
              case (Some e)
              with File \<open>getAbstractFileByPath H (vault w3) destination = Some found\<close>
                None None2 None3 ep rn rp
              have "relocateFile H newRegExp settings file destination w
                    = caught ''Relocate failed: '' ''File Mover: relocate failed'' e w5"
                by (simp add: relocateFile_def Let_def w1_def [symmetric] w3_def [symmetric] w4_def [symmetric])
              then have "trace (relocateFile H newRegExp settings file destination w) = trace w @
                  (Lookup destination # evs @
                    [Rename file destination, Lookup destination, ContentRewrite moved,
                     ErrorNotice ''Relocate failed: '' e,
                     ConsoleError ''File Mover: relocate failed'' e])"
                by (simp add: trace_caught t5 t4)
              with nomove show ?thesis by auto
            qed
          qed
        qed
      qed
    qed
  qed
qed

lemma handleRelocate_trace:
  "\<exists>evs. trace (handleRelocate H newRegExp settings reply file recommendedPath w) = trace w @ evs
     \<and> (\<forall>f d. Rename f d \<in> set evs \<longrightarrow> f = file
           \<and> d = (if CHR ''.'' \<in> set recommendedPath then recommendedPath else recommendedPath @ ''.md'')
           \<and> isValidVaultPath d)
     \<and> (\<forall>n d. ModalOpened n d \<in> set evs \<longrightarrow> n = name file
           \<and> d = (if CHR ''.'' \<in> set recommendedPath then recommendedPath else recommendedPath @ ''.md''))
     \<and> (isValidVaultPath
            (if CHR ''.'' \<in> set recommendedPath then recommendedPath else recommendedPath @ ''.md'')
          \<longrightarrow> (\<exists>rest. evs =
                (if confirmBeforeMove settings
                 then ModalOpened (name file)
                        (if CHR ''.'' \<in> set recommendedPath then recommendedPath
                         else recommendedPath @ ''.md'')
                 else Lookup (if CHR ''.'' \<in> set recommendedPath then recommendedPath
                              else recommendedPath @ ''.md'')) # rest))"
proof -
  define dest where
    "dest = (if CHR ''.'' \<in> set recommendedPath then recommendedPath else recommendedPath @ ''.md'')"
  show ?thesis
  proof (cases "isValidVaultPath dest")
    case False
    then have "trace (handleRelocate H newRegExp settings reply file recommendedPath w)
        = trace w @ [Notice ''Invalid path: must be a relative path within the vault'']"
      by (simp add: handleRelocate_def Let_def js_includes_def dest_def trace_emit)
    with False show ?thesis unfolding dest_def [symmetric] by auto
  next
    case True
    show ?thesis
    proof (cases "confirmBeforeMove settings")
      case False
      with True have eq: "handleRelocate H newRegExp settings reply file recommendedPath w
          = relocateFile H newRegExp settings file dest w"
        by (simp add: handleRelocate_def Let_def js_includes_def dest_def)
      from relocateFile_trace [of H newRegExp settings "file" dest w] eq True False
      show ?thesis unfolding dest_def [symmetric] by auto
    next
      case c: True
      define w1 where "w1 = emit (ModalOpened (name file) dest) w"
      have t1: "trace w1 = trace w @ [ModalOpened (name file) dest]" by (simp add: w1_def trace_emit)
      show ?thesis
      proof (cases reply)
        case Cancel
        with True c have "handleRelocate H newRegExp settings reply file recommendedPath w = w1"
          by (simp add: handleRelocate_def Let_def js_includes_def dest_def w1_def)
        with t1 c show ?thesis unfolding dest_def [symmetric] by auto
      next
        case Confirm
        with True c have eq: "handleRelocate H newRegExp settings reply file recommendedPath w
            = relocateFile H newRegExp settings file dest w1"
          by (simp add: handleRelocate_def Let_def js_includes_def dest_def w1_def)
        obtain evs where "trace (relocateFile H newRegExp settings file dest w1) = trace w1 @ evs"
          and "\<forall>f d. Rename f d \<in> set evs \<longrightarrow> f = file \<and> d = dest"
          and "\<forall>n d. ModalOpened n d \<notin> set evs"
          using relocateFile_trace [of H newRegExp settings "file" dest w1] by blast
        with eq t1 True c have "trace (handleRelocate H newRegExp settings reply file recommendedPath w)
            = trace w @ (ModalOpened (name file) dest # evs)
          \<and> (\<forall>f d. Rename f d \<in> set (ModalOpened (name file) dest # evs) \<longrightarrow> f = file \<and> d = dest
                \<and> isValidVaultPath d)
          \<and> (\<forall>n d. ModalOpened n d \<in> set (ModalOpened (name file) dest # evs) \<longrightarrow> n = name file \<and> d = dest)
          \<and> (isValidVaultPath dest \<longrightarrow> (\<exists>rest. ModalOpened (name file) dest # evs =
                (if confirmBeforeMove settings then ModalOpened (name file) dest else Lookup dest) # rest))"
          by auto
        then show ?thesis unfolding dest_def [symmetric] by blast
      qed
    qed
  qed
qed

lemma handleArchive_trace:
  "\<exists>evs. trace (handleArchive H settings reply file w) = trace w @ evs
     \<and> (\<forall>f d. Rename f d \<in> set evs \<longrightarrow> f = file \<and> d = archiveFolder settings @ ''/'' @ path file)"
proof -
  define dest where "dest = archiveFolder settings @ ''/'' @ path file"
  show ?thesis
  proof (cases "confirmBeforeMove settings")
    case False
    then have eq: "handleArchive H settings reply file w = archiveFile H file dest w"
      by (simp add: handleArchive_def Let_def dest_def)
    from archiveFile_trace [of H "file" dest w] eq
    show ?thesis unfolding dest_def [symmetric] by auto
  next
    case c: True
    define w1 where "w1 = emit (ModalOpened (name file) dest) w"
    have t1: "trace w1 = trace w @ [ModalOpened (name file) dest]" by (simp add: w1_def trace_emit)
    show ?thesis
    proof (cases reply)
      case Cancel
      with c have "handleArchive H settings reply file w = w1"
        by (simp add: handleArchive_def Let_def dest_def w1_def)
      with t1 show ?thesis unfolding dest_def [symmetric] by auto
    next
      case Confirm
      with c have eq: "handleArchive H settings reply file w = archiveFile H file dest w1"
        by (simp add: handleArchive_def Let_def dest_def w1_def)
      obtain evs where "trace (archiveFile H file dest w1) = trace w1 @ evs"
        and "\<forall>f d. Rename f d \<in> set evs \<longrightarrow> f = file \<and> d = dest"
        using archiveFile_trace [of H "file" dest w1] by blast
      with eq t1 have "trace (handleArchive H settings reply file w)
          = trace w @ (ModalOpened (name file) dest # evs)
        \<and> (\<forall>f d. Rename f d \<in> set (ModalOpened (name file) dest # evs) \<longrightarrow> f = file \<and> d = dest)"
        by auto
      then show ?thesis unfolding dest_def [symmetric] by blast
    qed
  qed
qed

lemmas host_defs =
  handleArchive_def handleRelocate_def archiveFile_def relocateFile_def
  removeRecommendedPathProperty_def ensureParentFolders_def emit_def caught_def emitted_def
  memHost_def memLookup_def memCreateFolder_def memRenameFile_def memProcess_def
  normalizePath_def DEFAULT_SETTINGS_def js_includes_def isValidVaultPath_def
  testDrivePrefix_def isAsciiLetter_def replaceBackslashes_def

text \<open>Two runs of the relocate handler on the vault in memory.\<close>

lemma relocate_run:
  "emitted \<lparr>vault = [(''Inbox/Note.md'', FileEntry ''---\<newline>recommended_path: 03_Areas/NewNote\<newline>tags: a\<newline>---\<newline>body''),
                      (''Inbox'', FolderEntry)], trace = []\<rparr>
     (handleRelocate memHost plainRegExp DEFAULT_SETTINGS Confirm
        \<lparr>path = ''Inbox/Note.md'', name = ''Note.md''\<rparr> ''03_Areas/NewNote''
        \<lparr>vault = [(''Inbox/Note.md'', FileEntry ''---\<newline>recommended_path: 03_Areas/NewNote\<newline>tags: a\<newline>---\<newline>body''),
                  (''Inbox'', FolderEntry)], trace = []\<rparr>)
   = [ModalOpened ''Note.md'' ''03_Areas/NewNote.md'',
      Lookup ''03_Areas/NewNote.md'', Lookup ''03_Areas'', FolderCreation ''03_Areas'',
      Rename \<lparr>path = ''Inbox/Note.md'', name = ''Note.md''\<rparr> ''03_Areas/NewNote.md'',
      Lookup ''03_Areas/NewNote.md'',
      ContentRewrite \<lparr>path = ''03_Areas/NewNote.md'', name = ''NewNote.md''\<rparr>,
      Notice ''Moved to 03_Areas/NewNote.md'']"
  by (simp add: host_defs remover_defs)

lemma relocate_run_vault:
  "vault (handleRelocate memHost plainRegExp DEFAULT_SETTINGS Confirm
        \<lparr>path = ''Inbox/Note.md'', name = ''Note.md''\<rparr> ''03_Areas/NewNote''
        \<lparr>vault = [(''Inbox/Note.md'', FileEntry ''---\<newline>recommended_path: 03_Areas/NewNote\<newline>tags: a\<newline>---\<newline>body''),
                  (''Inbox'', FolderEntry)], trace = []\<rparr>)
   = [(''03_Areas/NewNote.md'', FileEntry ''---\<newline>tags: a\<newline>---\<newline>body''),
      (''03_Areas'', FolderEntry), (''Inbox'', FolderEntry)]"
  by (simp add: host_defs remover_defs)

lemma relocate_run_with_extension:
  "emitted \<lparr>vault = [(''Inbox/Note.md'', FileEntry ''body''), (''03_Areas'', FolderEntry)], trace = []\<rparr>
     (handleRelocate memHost plainRegExp DEFAULT_SETTINGS Cancel
        \<lparr>path = ''Inbox/Note.md'', name = ''Note.md''\<rparr> ''03_Areas/NewNote.md''
        \<lparr>vault = [(''Inbox/Note.md'', FileEntry ''body''), (''03_Areas'', FolderEntry)], trace = []\<rparr>)
   = [ModalOpened ''Note.md'' ''03_Areas/NewNote.md'']"
  by (simp add: host_defs remover_defs)

subsection \<open>An occupied destination\<close>

text \<open>
  Claim C8. For every archive or relocate move where the existence lookup finds an object
  already at the destination, the procedure aborts after reporting the error: it creates no
  folder and renames nothing, and the vault is unchanged. The world after the move is the
  world before it with two events added, the lookup and the notice.
\<close>

theorem move_aborts_when_destination_exists:
  "getAbstractFileByPath H (vault w) destination = Some existing \<Longrightarrow>
     archiveFile H file destination w
       = w\<lparr>trace := trace w @
            [Lookup destination,
             Notice (''Cannot archive: file already exists at '' @ destination)]\<rparr>
     \<and> relocateFile H newRegExp settings file destination w
       = w\<lparr>trace := trace w @
            [Lookup destination,
             Notice (''Cannot move: file already exists at '' @ destination)]\<rparr>"
  by (simp add: archiveFile_def relocateFile_def Let_def emit_def)

theorem move_aborts_when_destination_exists_witness:
  "archiveFile memHost \<lparr>path = ''03_Areas/Note.md'', name = ''Note.md''\<rparr>
       ''90_Archive/03_Areas/Note.md''
       \<lparr>vault = [(''03_Areas/Note.md'', FileEntry ''new''),
                 (''90_Archive/03_Areas/Note.md'', FileEntry ''old'')], trace = []\<rparr>
     = \<lparr>vault = [(''03_Areas/Note.md'', FileEntry ''new''),
                 (''90_Archive/03_Areas/Note.md'', FileEntry ''old'')],
        trace = [Lookup ''90_Archive/03_Areas/Note.md'',
                 Notice ''Cannot archive: file already exists at 90_Archive/03_Areas/Note.md'']\<rparr>
   \<and> relocateFile memHost plainRegExp DEFAULT_SETTINGS
       \<lparr>path = ''03_Areas/Note.md'', name = ''Note.md''\<rparr> ''90_Archive/03_Areas/Note.md''
       \<lparr>vault = [(''03_Areas/Note.md'', FileEntry ''new''),
                 (''90_Archive/03_Areas/Note.md'', FileEntry ''old'')], trace = []\<rparr>
     = \<lparr>vault = [(''03_Areas/Note.md'', FileEntry ''new''),
                 (''90_Archive/03_Areas/Note.md'', FileEntry ''old'')],
        trace = [Lookup ''90_Archive/03_Areas/Note.md'',
                 Notice ''Cannot move: file already exists at 90_Archive/03_Areas/Note.md'']\<rparr>"
proof -
  have e: "getAbstractFileByPath memHost
      (vault \<lparr>vault = [(''03_Areas/Note.md'', FileEntry ''new''),
                 (''90_Archive/03_Areas/Note.md'', FileEntry ''old'')], trace = []\<rparr>)
      ''90_Archive/03_Areas/Note.md''
    = Some (File \<lparr>path = ''90_Archive/03_Areas/Note.md'', name = ''Note.md''\<rparr>)"
    by (simp add: memHost_def memLookup_def js_split_def)
  from move_aborts_when_destination_exists [OF e] show ?thesis by simp
qed

subsection \<open>An invalid destination\<close>

text \<open>
  Claim C9. For every relocate request whose destination fails the path validation, an
  error is reported and the operation stops before any side effect: no dialog, no lookup, no
  folder creation and no rename. The world after the request is the world before it with
  the one notice added.
\<close>

theorem handleRelocate_invalid_path:
  "\<not> isValidVaultPath
       (if CHR ''.'' \<in> set recommendedPath then recommendedPath else recommendedPath @ ''.md'') \<Longrightarrow>
   handleRelocate H newRegExp settings reply file recommendedPath w
     = w\<lparr>trace := trace w @
          [Notice ''Invalid path: must be a relative path within the vault'']\<rparr>"
  by (simp add: handleRelocate_def Let_def js_includes_def emit_def)

theorem handleRelocate_invalid_path_witness:
  "handleRelocate memHost plainRegExp DEFAULT_SETTINGS Confirm
       \<lparr>path = ''Inbox/Note.md'', name = ''Note.md''\<rparr> ''../secret''
       \<lparr>vault = [(''Inbox/Note.md'', FileEntry ''body'')], trace = []\<rparr>
     = \<lparr>vault = [(''Inbox/Note.md'', FileEntry ''body'')],
        trace = [Notice ''Invalid path: must be a relative path within the vault'']\<rparr>"
proof -
  have i: "\<not> isValidVaultPath
       (if CHR ''.'' \<in> set ''../secret'' then ''../secret'' else ''../secret'' @ ''.md'')"
    by (simp add: isValidVaultPath_def testDrivePrefix_def isAsciiLetter_def js_startsWith_def
        replaceBackslashes_def backslash_def js_split_def)
  show ?thesis by (simp add: handleRelocate_invalid_path [OF i])
qed

subsection \<open>The destination of a relocate request\<close>

text \<open>
  Claim C7. For every relocate request, the destination is the value handed to the handler
  with \<open>.md\<close> appended exactly when the value contains no \<open>.\<close> anywhere, and the value
  unchanged otherwise. (The menu entry hands over the frontmatter value trimmed.)

  The destination is what the handler shows in the dialog and passes to the rename: every
  such event of the request names that string. When the string passes the validation, the
  first event of the request names it: the dialog with confirmation on, the existence lookup
  with confirmation off.
\<close>

theorem handleRelocate_destination:
  "(ModalOpened n d \<in> set (emitted w (handleRelocate H newRegExp settings reply file recommendedPath w))
    \<or> Rename f d \<in> set (emitted w (handleRelocate H newRegExp settings reply file recommendedPath w))
    \<longrightarrow> d = (if CHR ''.'' \<in> set recommendedPath then recommendedPath else recommendedPath @ ''.md''))
   \<and> (isValidVaultPath
         (if CHR ''.'' \<in> set recommendedPath then recommendedPath else recommendedPath @ ''.md'')
       \<longrightarrow> (\<exists>rest. emitted w (handleRelocate H newRegExp settings reply file recommendedPath w) =
             (if confirmBeforeMove settings
              then ModalOpened (name file)
                     (if CHR ''.'' \<in> set recommendedPath then recommendedPath
                      else recommendedPath @ ''.md'')
              else Lookup (if CHR ''.'' \<in> set recommendedPath then recommendedPath
                           else recommendedPath @ ''.md'')) # rest))"
proof -
  obtain evs where t: "trace (handleRelocate H newRegExp settings reply file recommendedPath w) = trace w @ evs"
    and r: "\<forall>f d. Rename f d \<in> set evs \<longrightarrow> f = file
           \<and> d = (if CHR ''.'' \<in> set recommendedPath then recommendedPath else recommendedPath @ ''.md'')
           \<and> isValidVaultPath d"
    and m: "\<forall>n d. ModalOpened n d \<in> set evs \<longrightarrow> n = name file
           \<and> d = (if CHR ''.'' \<in> set recommendedPath then recommendedPath else recommendedPath @ ''.md'')"
    and first: "isValidVaultPath
            (if CHR ''.'' \<in> set recommendedPath then recommendedPath else recommendedPath @ ''.md'')
          \<longrightarrow> (\<exists>rest. evs =
                (if confirmBeforeMove settings
                 then ModalOpened (name file)
                        (if CHR ''.'' \<in> set recommendedPath then recommendedPath
                         else recommendedPath @ ''.md'')
                 else Lookup (if CHR ''.'' \<in> set recommendedPath then recommendedPath
                              else recommendedPath @ ''.md'')) # rest)"
    using handleRelocate_trace [of H newRegExp settings reply "file" recommendedPath w] by blast
  have e: "emitted w (handleRelocate H newRegExp settings reply file recommendedPath w) = evs"
    using t by (rule emitted_append)
  from r m first show ?thesis unfolding e by blast
qed

theorem handleRelocate_destination_witness:
  "Rename \<lparr>path = ''Inbox/Note.md'', name = ''Note.md''\<rparr> ''03_Areas/NewNote.md''
     \<in> set (emitted \<lparr>vault = [(''Inbox/Note.md'', FileEntry ''---\<newline>recommended_path: 03_Areas/NewNote\<newline>tags: a\<newline>---\<newline>body''),
                      (''Inbox'', FolderEntry)], trace = []\<rparr>
     (handleRelocate memHost plainRegExp DEFAULT_SETTINGS Confirm
        \<lparr>path = ''Inbox/Note.md'', name = ''Note.md''\<rparr> ''03_Areas/NewNote''
        \<lparr>vault = [(''Inbox/Note.md'', FileEntry ''---\<newline>recommended_path: 03_Areas/NewNote\<newline>tags: a\<newline>---\<newline>body''),
                  (''Inbox'', FolderEntry)], trace = []\<rparr>))
   \<and> ''03_Areas/NewNote.md''
       = (if CHR ''.'' \<in> set ''03_Areas/NewNote'' then ''03_Areas/NewNote''
          else ''03_Areas/NewNote'' @ ''.md'')
   \<and> ModalOpened ''Note.md'' ''03_Areas/NewNote.md''
     \<in> set (emitted \<lparr>vault = [(''Inbox/Note.md'', FileEntry ''body''), (''03_Areas'', FolderEntry)], trace = []\<rparr>
     (handleRelocate memHost plainRegExp DEFAULT_SETTINGS Cancel
        \<lparr>path = ''Inbox/Note.md'', name = ''Note.md''\<rparr> ''03_Areas/NewNote.md''
        \<lparr>vault = [(''Inbox/Note.md'', FileEntry ''body''), (''03_Areas'', FolderEntry)], trace = []\<rparr>))
   \<and> ''03_Areas/NewNote.md''
       = (if CHR ''.'' \<in> set ''03_Areas/NewNote.md'' then ''03_Areas/NewNote.md''
          else ''03_Areas/NewNote.md'' @ ''.md'')"
proof -
  have a: "Rename \<lparr>path = ''Inbox/Note.md'', name = ''Note.md''\<rparr> ''03_Areas/NewNote.md''
     \<in> set (emitted \<lparr>vault = [(''Inbox/Note.md'', FileEntry ''---\<newline>recommended_path: 03_Areas/NewNote\<newline>tags: a\<newline>---\<newline>body''),
                      (''Inbox'', FolderEntry)], trace = []\<rparr>
     (handleRelocate memHost plainRegExp DEFAULT_SETTINGS Confirm
        \<lparr>path = ''Inbox/Note.md'', name = ''Note.md''\<rparr> ''03_Areas/NewNote''
        \<lparr>vault = [(''Inbox/Note.md'', FileEntry ''---\<newline>recommended_path: 03_Areas/NewNote\<newline>tags: a\<newline>---\<newline>body''),
                  (''Inbox'', FolderEntry)], trace = []\<rparr>))"
    unfolding relocate_run by simp
  have b: "ModalOpened ''Note.md'' ''03_Areas/NewNote.md''
     \<in> set (emitted \<lparr>vault = [(''Inbox/Note.md'', FileEntry ''body''), (''03_Areas'', FolderEntry)], trace = []\<rparr>
     (handleRelocate memHost plainRegExp DEFAULT_SETTINGS Cancel
        \<lparr>path = ''Inbox/Note.md'', name = ''Note.md''\<rparr> ''03_Areas/NewNote.md''
        \<lparr>vault = [(''Inbox/Note.md'', FileEntry ''body''), (''03_Areas'', FolderEntry)], trace = []\<rparr>))"
    unfolding relocate_run_with_extension by simp
  from a handleRelocate_destination have c: "''03_Areas/NewNote.md''
       = (if CHR ''.'' \<in> set ''03_Areas/NewNote'' then ''03_Areas/NewNote''
          else ''03_Areas/NewNote'' @ ''.md'')"
    by blast
  from b handleRelocate_destination have d: "''03_Areas/NewNote.md''
       = (if CHR ''.'' \<in> set ''03_Areas/NewNote.md'' then ''03_Areas/NewNote.md''
          else ''03_Areas/NewNote.md'' @ ''.md'')"
    by blast
  from a b c d show ?thesis by blast
qed

subsection \<open>A moved file that is not found again\<close>

text \<open>
  Claim C10. For every relocate move where the rename succeeds but looking the destination
  up again yields nothing or an object that is not a file, the removal of the frontmatter
  field is skipped without a notice, and the success notice with the destination is still
  shown: after the rename the only events are the lookup and that notice.
\<close>

theorem relocateFile_unresolved_after_rename:
  assumes "getAbstractFileByPath H (vault w) destination = None"
    and "ensureParentFolders H destination (emit (Lookup destination) w) = (None, w2)"
    and "renameFile H (vault w2) file destination = (h, None)"
    and "\<forall>moved. getAbstractFileByPath H h destination \<noteq> Some (File moved)"
  shows "relocateFile H newRegExp settings file destination w
         = w2\<lparr>vault := h,
               trace := trace w2 @
                 [Rename file destination, Lookup destination,
                  Notice (''Moved to '' @ destination)]\<rparr>"
proof (cases "getAbstractFileByPath H h destination")
  case None
  with assms(1-3) show ?thesis
    by (simp add: relocateFile_def Let_def emit_def)
next
  case (Some found)
  with assms(4) obtain p where "found = Folder p" by (cases found) auto
  with Some assms(1-3) show ?thesis
    by (simp add: relocateFile_def Let_def emit_def)
qed

theorem relocateFile_unresolved_after_rename_witness:
  "relocateFile memHost plainRegExp DEFAULT_SETTINGS
       \<lparr>path = ''Inbox/Note.md'', name = ''Note.md''\<rparr> ''Inbox//New.md''
       \<lparr>vault = [(''Inbox/Note.md'', FileEntry ''---\<newline>recommended_path: Inbox//New.md\<newline>---\<newline>body''),
                 (''Inbox'', FolderEntry)], trace = []\<rparr>
     = \<lparr>vault = [(''Inbox/New.md'', FileEntry ''---\<newline>recommended_path: Inbox//New.md\<newline>---\<newline>body''),
                 (''Inbox/'', FolderEntry), (''Inbox'', FolderEntry)],
        trace = [Lookup ''Inbox//New.md'', Lookup ''Inbox'', Lookup ''Inbox/'',
                 FolderCreation ''Inbox/'',
                 Rename \<lparr>path = ''Inbox/Note.md'', name = ''Note.md''\<rparr> ''Inbox//New.md'',
                 Lookup ''Inbox//New.md'', Notice ''Moved to Inbox//New.md'']\<rparr>"
proof -
  have a: "getAbstractFileByPath memHost
      (vault \<lparr>vault = [(''Inbox/Note.md'', FileEntry ''---\<newline>recommended_path: Inbox//New.md\<newline>---\<newline>body''),
                 (''Inbox'', FolderEntry)], trace = []\<rparr>) ''Inbox//New.md'' = None"
    by (simp add: memHost_def memLookup_def)
  have b: "ensureParentFolders memHost ''Inbox//New.md''
      (emit (Lookup ''Inbox//New.md'')
         \<lparr>vault = [(''Inbox/Note.md'', FileEntry ''---\<newline>recommended_path: Inbox//New.md\<newline>---\<newline>body''),
                 (''Inbox'', FolderEntry)], trace = []\<rparr>)
    = (None, \<lparr>vault = [(''Inbox/'', FolderEntry),
                (''Inbox/Note.md'', FileEntry ''---\<newline>recommended_path: Inbox//New.md\<newline>---\<newline>body''),
                (''Inbox'', FolderEntry)],
        trace = [Lookup ''Inbox//New.md'', Lookup ''Inbox'', Lookup ''Inbox/'',
                 FolderCreation ''Inbox/'']\<rparr>)"
    by (simp add: host_defs js_split_def Let_def)
  have c: "renameFile memHost
      (vault \<lparr>vault = [(''Inbox/'', FolderEntry),
                (''Inbox/Note.md'', FileEntry ''---\<newline>recommended_path: Inbox//New.md\<newline>---\<newline>body''),
                (''Inbox'', FolderEntry)],
        trace = [Lookup ''Inbox//New.md'', Lookup ''Inbox'', Lookup ''Inbox/'',
                 FolderCreation ''Inbox/'']\<rparr>)
      \<lparr>path = ''Inbox/Note.md'', name = ''Note.md''\<rparr> ''Inbox//New.md''
    = ([(''Inbox/New.md'', FileEntry ''---\<newline>recommended_path: Inbox//New.md\<newline>---\<newline>body''),
        (''Inbox/'', FolderEntry), (''Inbox'', FolderEntry)], None)"
    by (simp add: host_defs js_split_def Let_def)
  have d: "\<forall>moved. getAbstractFileByPath memHost
        [(''Inbox/New.md'', FileEntry ''---\<newline>recommended_path: Inbox//New.md\<newline>---\<newline>body''),
        (''Inbox/'', FolderEntry), (''Inbox'', FolderEntry)] ''Inbox//New.md'' \<noteq> Some (File moved)"
    by (simp add: memHost_def memLookup_def)
  from relocateFile_unresolved_after_rename [OF a b c d] show ?thesis by simp
qed

subsection \<open>The destination handed to the rename\<close>

text \<open>
  Claim C1. For every move (archive or relocate) that reaches the rename, the destination
  passed to the rename never begins with \<open>/\<close>, never has a drive letter prefix and never
  contains a \<open>..\<close> segment, for every value of the archive folder setting, every file path and
  every frontmatter value.

  As stated the claim fails for the archive: \<open>handleArchive\<close> joins the setting and the path
  of the file and never calls the validator. With the archive folder set to \<open>..\<close> the
  destination handed to the rename starts with a \<open>..\<close> segment.
\<close>

theorem handleArchive_unvalidated_counterexample:
  "emitted \<lparr>vault = [(''03_Areas/Note.md'', FileEntry ''text''), (''03_Areas'', FolderEntry)], trace = []\<rparr>
     (handleArchive memHost
        \<lparr>archiveFolder = ''..'', recommendedPathProperty = ''recommended_path'',
         confirmBeforeMove = False\<rparr>
        Confirm \<lparr>path = ''03_Areas/Note.md'', name = ''Note.md''\<rparr>
        \<lparr>vault = [(''03_Areas/Note.md'', FileEntry ''text''), (''03_Areas'', FolderEntry)], trace = []\<rparr>)
   = [Lookup ''../03_Areas/Note.md'', Lookup ''..'', FolderCreation ''..'',
      Lookup ''../03_Areas'', FolderCreation ''../03_Areas'',
      Rename \<lparr>path = ''03_Areas/Note.md'', name = ''Note.md''\<rparr> ''../03_Areas/Note.md'',
      Notice ''Archived to ../03_Areas/Note.md'']
   \<and> ''..'' \<in> set (js_split (CHR ''/'') ''../03_Areas/Note.md'')"
  by (simp add: host_defs remover_defs)

text \<open>
  Claim C1, amended. For every relocate move that reaches the rename, the destination
  passed to the rename never begins with \<open>/\<close>, never has a drive letter prefix and never
  contains a \<open>..\<close> segment (with the slash alone, or the slash and the backslash, as separators),
  for every frontmatter value. For every archive move that reaches the rename, the
  destination is the archive folder setting, a slash and the path of the file, as they are.
\<close>

theorem rename_destination_validated:
  "(Rename f d \<in> set (emitted w (handleRelocate H newRegExp settings reply file recommendedPath w))
      \<longrightarrow> \<not> js_startsWith d ''/'' \<and> \<not> testDrivePrefix d
          \<and> ''..'' \<notin> set (js_split (CHR ''/'') (replaceBackslashes d))
          \<and> ''..'' \<notin> set (js_split (CHR ''/'') d))
   \<and> (Rename f d \<in> set (emitted w (handleArchive H settings reply file w))
      \<longrightarrow> d = archiveFolder settings @ ''/'' @ path file)"
proof -
  obtain evs where t: "trace (handleRelocate H newRegExp settings reply file recommendedPath w) = trace w @ evs"
    and r: "\<forall>f d. Rename f d \<in> set evs \<longrightarrow> f = file
           \<and> d = (if CHR ''.'' \<in> set recommendedPath then recommendedPath else recommendedPath @ ''.md'')
           \<and> isValidVaultPath d"
    using handleRelocate_trace [of H newRegExp settings reply "file" recommendedPath w] by blast
  have e: "emitted w (handleRelocate H newRegExp settings reply file recommendedPath w) = evs"
    using t by (rule emitted_append)
  have v: "isValidVaultPath d \<Longrightarrow> \<not> js_startsWith d ''/'' \<and> \<not> testDrivePrefix d
          \<and> ''..'' \<notin> set (js_split (CHR ''/'') (replaceBackslashes d))
          \<and> ''..'' \<notin> set (js_split (CHR ''/'') d)"
    using dotdot_segment_replaceBackslashes [of d]
    by (auto simp: isValidVaultPath_def Let_def list_ex_iff split: if_splits)
  obtain evs' where t': "trace (handleArchive H settings reply file w) = trace w @ evs'"
    and r': "\<forall>f d. Rename f d \<in> set evs' \<longrightarrow> f = file \<and> d = archiveFolder settings @ ''/'' @ path file"
    using handleArchive_trace [of H settings reply "file" w] by blast
  have e': "emitted w (handleArchive H settings reply file w) = evs'"
    using t' by (rule emitted_append)
  from e r v e' r' show ?thesis by blast
qed

theorem rename_destination_validated_witness:
  "Rename \<lparr>path = ''Inbox/Note.md'', name = ''Note.md''\<rparr> ''03_Areas/NewNote.md''
     \<in> set (emitted \<lparr>vault = [(''Inbox/Note.md'', FileEntry ''---\<newline>recommended_path: 03_Areas/NewNote\<newline>tags: a\<newline>---\<newline>body''),
                      (''Inbox'', FolderEntry)], trace = []\<rparr>
     (handleRelocate memHost plainRegExp DEFAULT_SETTINGS Confirm
        \<lparr>path = ''Inbox/Note.md'', name = ''Note.md''\<rparr> ''03_Areas/NewNote''
        \<lparr>vault = [(''Inbox/Note.md'', FileEntry ''---\<newline>recommended_path: 03_Areas/NewNote\<newline>tags: a\<newline>---\<newline>body''),
                  (''Inbox'', FolderEntry)], trace = []\<rparr>))
   \<and> \<not> js_startsWith ''03_Areas/NewNote.md'' ''/''
   \<and> \<not> testDrivePrefix ''03_Areas/NewNote.md''
   \<and> ''..'' \<notin> set (js_split (CHR ''/'') (replaceBackslashes ''03_Areas/NewNote.md''))
   \<and> ''..'' \<notin> set (js_split (CHR ''/'') ''03_Areas/NewNote.md'')"
proof -
  have m: "Rename \<lparr>path = ''Inbox/Note.md'', name = ''Note.md''\<rparr> ''03_Areas/NewNote.md''
     \<in> set (emitted \<lparr>vault = [(''Inbox/Note.md'', FileEntry ''---\<newline>recommended_path: 03_Areas/NewNote\<newline>tags: a\<newline>---\<newline>body''),
                      (''Inbox'', FolderEntry)], trace = []\<rparr>
     (handleRelocate memHost plainRegExp DEFAULT_SETTINGS Confirm
        \<lparr>path = ''Inbox/Note.md'', name = ''Note.md''\<rparr> ''03_Areas/NewNote''
        \<lparr>vault = [(''Inbox/Note.md'', FileEntry ''---\<newline>recommended_path: 03_Areas/NewNote\<newline>tags: a\<newline>---\<newline>body''),
                  (''Inbox'', FolderEntry)], trace = []\<rparr>))"
    unfolding relocate_run by simp
  with rename_destination_validated show ?thesis by blast
qed


end
